theory Spec2Isabelle
  imports Main "HOL-Library.Multiset"
begin

section \<open>Errors\<close>

text \<open>
  Every exception the modelled code raises or lets through is a value of \<open>error\<close>.
  \<open>BatchException\<close> carries its message; \<open>FileNotFoundError\<close> carries its argument;
  \<open>OtherError\<close> stands for any exception of a collaborator that the code does not
  catch (permission errors, errors of the template expansion, ...).
\<close>

datatype error =
    BatchException string
  | AssertionError
  | KeyError
  | IndexError
  | FileNotFoundError string
  | OtherError string

section \<open>Data model of \<open>hailtop/batch/batch.py\<close>\<close>

type_synonym job_ref = nat
type_synonym res_ref = nat

text \<open>The two classes of jobs that \<open>batch.py\<close> constructs and tests with \<open>isinstance\<close>.\<close>

datatype job_kind = BashJob | PythonJob

text \<open>
  Python values whose type the code inspects or merely forwards: a string, an integer, or
  an object of some other type, given by the text of \<open>type(v)\<close>.
\<close>

datatype pyvalue = PyStr string | PyInt int | PyObj string

text \<open>
  Modelled from the spec: the class \<open>Job\<close> (job.py) is not among the sources. A job has
  a token, a name, attributes, execution parameters settable by the factory, a set of
  explicit predecessor jobs (kept in its iteration order), the resources mentioned by its
  body, the table from its resources back to their symbolic names, and the position
  assigned by linearization.
\<close>

record job =
  kind :: job_kind
  token :: string
  name :: "string option"
  attributes :: "string \<rightharpoonup> string"
  shell :: "string option"
  image' :: "string option"
  memory :: "pyvalue option"
  cpu :: "pyvalue option"
  storage :: "pyvalue option"
  timeout :: "pyvalue option"
  spot :: "bool option"
  regions :: "string list option"
  dependencies :: "job_ref list"
  mentioned :: "res_ref set"
  resources_inverse :: "res_ref \<rightharpoonup> string"
  job_id :: "nat option"

text \<open>
  Modelled from the spec: the resource classes (resource.py) are not among the sources.
  The four variants of the data model, none a subclass of another; a resource has a
  unique identifier, the job that produces it (none for an input), its value (a root
  name for a group), the members of a group, and the destinations recorded by
  \<open>_add_output_path\<close>.
\<close>

datatype res_kind = InputResourceFile | JobResourceFile | ResourceGroup | PythonResult

record resource =
  uid :: nat
  rkind :: res_kind
  source :: "job_ref option"
  res_value :: string
  members :: "(string \<times> res_ref) list"
  output_paths :: "string set"

datatype backend = LocalBackend | ServiceBackend "string list option" | OtherBackend

text \<open>
  The state: the fields of the \<open>Batch\<close> object that the modelled methods read or write,
  the objects it refers to (jobs and resources live in two stores and are referred to by
  their index), the number of strings drawn so far from the random generator, and the
  calls of the backend's \<open>_run\<close> made so far.
\<close>

record state =
  jobs :: "job_ref list"
  resource_map :: "nat \<rightharpoonup> res_ref"
  input_resources :: "res_ref set"
  job_tokens :: "string set"
  backend :: backend
  batch_name :: "string option"
  batch_attributes :: "string \<rightharpoonup> string"
  default_image :: "string option"
  default_memory :: "pyvalue option"
  default_cpu :: "pyvalue option"
  default_storage :: "pyvalue option"
  default_timeout :: "pyvalue option"
  default_shell :: "string option"
  default_python_image :: "string option"
  default_spot :: "bool option"
  DEPRECATED_fs :: "nat option"
  job_heap :: "job list"
  res_heap :: "resource list"
  draws :: nat
  backend_runs :: "(job_ref list \<times> bool \<times> bool \<times> bool) list"

text \<open>
  The collaborators the code calls and does not define: the random string generator (the
  sequence of strings it returns, whatever the requested length), \<open>url_scheme\<close>,
  \<open>os.path.expanduser\<close> and \<open>os.path.abspath\<close>, the evaluation of a template as an
  f-string (given the root it may refer to), the outcome of the backend's \<open>_run\<close>, and
  the backend configured when none is passed.
\<close>

record env =
  secret_alnum_string :: "nat \<Rightarrow> string"
  url_scheme :: "string \<Rightarrow> string"
  expanduser :: "string \<Rightarrow> string"
  abspath :: "string \<Rightarrow> string"
  eval_fstring :: "string \<Rightarrow> string \<Rightarrow> error + string"
  backend_result :: "job_ref list \<Rightarrow> bool \<Rightarrow> error + nat option"
  backend_config :: string

definition quoted :: "string \<Rightarrow> string" where
  "quoted s = [CHR 0x27] @ s @ [CHR 0x27]"

subsection \<open>\<open>Batch.__init__\<close>\<close>

definition Batch_init ::
  "env \<Rightarrow> string option \<Rightarrow> backend option \<Rightarrow> (string \<rightharpoonup> string) option \<Rightarrow>
   string option \<Rightarrow> pyvalue option \<Rightarrow> pyvalue option \<Rightarrow> pyvalue option \<Rightarrow> pyvalue option \<Rightarrow>
   string option \<Rightarrow> string option \<Rightarrow> bool option \<Rightarrow> error + state" where
  "Batch_init e name_arg backend_arg attributes_arg image_arg memory_arg cpu_arg storage_arg
     timeout_arg shell_arg python_image_arg spot_arg =
    (case (case backend_arg of
             Some b \<Rightarrow> Inr b
           | None \<Rightarrow>
               if backend_config e = ''service'' then Inr (ServiceBackend None)
               else if backend_config e = ''local'' then Inr LocalBackend
               else Inl AssertionError) of
       Inl err \<Rightarrow> Inl err
     | Inr b \<Rightarrow>
         let attrs = (case attributes_arg of None \<Rightarrow> Map.empty | Some a \<Rightarrow> a) in
         if ''name'' \<in> dom attrs
         then Inl (BatchException
                (quoted ''name'' @ '' is not a valid attribute. Use the name argument instead.''))
         else Inr \<lparr> jobs = [], resource_map = Map.empty, input_resources = {},
                    job_tokens = {}, backend = b, batch_name = name_arg,
                    batch_attributes = attrs, default_image = image_arg,
                    default_memory = memory_arg, default_cpu = cpu_arg,
                    default_storage = storage_arg, default_timeout = timeout_arg,
                    default_shell = shell_arg, default_python_image = python_image_arg,
                    default_spot = spot_arg, DEPRECATED_fs = None, job_heap = [],
                    res_heap = [], draws = 0, backend_runs = [] \<rparr>)"

subsection \<open>\<open>Batch._unique_job_token\<close>\<close>

text \<open>
  The loop \<open>while token in self._job_tokens: token = secret_alnum_string(n)\<close>. It ends
  only when the generator returns a string outside the set, so the model is partial:
  \<open>None\<close> is a loop that never ends. The result is the token and the number of strings
  drawn.
\<close>

partial_function (option) redraw ::
  "(nat \<Rightarrow> string) \<Rightarrow> string set \<Rightarrow> string \<Rightarrow> nat \<Rightarrow> (string \<times> nat) option" where
  "redraw gen used tok k =
     (if tok \<in> used then redraw gen used (gen k) (Suc k) else Some (tok, k))"

definition unique_job_token :: "env \<Rightarrow> state \<Rightarrow> (string \<times> state) option" where
  "unique_job_token e st =
     (case redraw (secret_alnum_string e) (job_tokens st)
             (secret_alnum_string e (draws st)) (Suc (draws st)) of
        None \<Rightarrow> None
      | Some (tok, k) \<Rightarrow> Some (tok, st\<lparr>draws := k\<rparr>))"

subsection \<open>\<open>Batch.new_job\<close>, \<open>Batch.new_bash_job\<close>, \<open>Batch.new_python_job\<close>\<close>

text \<open>
  Modelled from the spec: the constructors \<open>BashJob(...)\<close> and \<open>PythonJob(...)\<close> and the
  setters \<open>image\<close>, \<open>memory\<close>, \<open>cpu\<close>, \<open>storage\<close>, \<open>timeout\<close>, \<open>spot\<close> and \<open>regions\<close>
  (job.py) are not among the sources. The constructor stores its arguments in a job with
  no dependencies and nothing mentioned; a setter stores its argument.
\<close>

definition Job_init ::
  "job_kind \<Rightarrow> string \<Rightarrow> string option \<Rightarrow> (string \<rightharpoonup> string) \<Rightarrow> string option \<Rightarrow> job" where
  "Job_init k tok name_arg attributes_arg shell_arg =
     \<lparr> kind = k, token = tok, name = name_arg, attributes = attributes_arg,
       shell = shell_arg, image' = None, memory = None, cpu = None, storage = None,
       timeout = None, spot = None, regions = None, dependencies = [], mentioned = {},
       resources_inverse = Map.empty, job_id = None \<rparr>"

definition apply_defaults :: "state \<Rightarrow> string option \<Rightarrow> job \<Rightarrow> job" where
  "apply_defaults st image_default j =
     (let j = (case image_default of None \<Rightarrow> j | Some v \<Rightarrow> j\<lparr>image' := Some v\<rparr>);
          j = (case default_memory st of None \<Rightarrow> j | Some v \<Rightarrow> j\<lparr>memory := Some v\<rparr>);
          j = (case default_cpu st of None \<Rightarrow> j | Some v \<Rightarrow> j\<lparr>cpu := Some v\<rparr>);
          j = (case default_storage st of None \<Rightarrow> j | Some v \<Rightarrow> j\<lparr>storage := Some v\<rparr>);
          j = (case default_timeout st of None \<Rightarrow> j | Some v \<Rightarrow> j\<lparr>timeout := Some v\<rparr>);
          j = (case default_spot st of None \<Rightarrow> j | Some v \<Rightarrow> j\<lparr>spot := Some v\<rparr>)
      in (case backend st of ServiceBackend r \<Rightarrow> j\<lparr>regions := r\<rparr> | _ \<Rightarrow> j))"

text \<open>
  The result is \<open>None\<close> when the token loop never ends, otherwise the new job (its index
  in the store) and the new state. The body raises nothing.
\<close>

definition new_bash_job ::
  "env \<Rightarrow> state \<Rightarrow> string option \<Rightarrow> (string \<rightharpoonup> string) option \<Rightarrow> string option \<Rightarrow>
   (job_ref \<times> state) option" where
  "new_bash_job e st name_arg attributes_arg shell_arg =
     (let attrs = (case attributes_arg of None \<Rightarrow> Map.empty | Some a \<Rightarrow> a);
          sh = (case shell_arg of None \<Rightarrow> default_shell st | Some s \<Rightarrow> Some s)
      in case unique_job_token e st of
           None \<Rightarrow> None
         | Some (tok, st1) \<Rightarrow>
             let j = apply_defaults st1 (default_image st1) (Job_init BashJob tok name_arg attrs sh);
                 r = length (job_heap st1)
             in Some (r, st1\<lparr>job_heap := job_heap st1 @ [j], jobs := jobs st1 @ [r]\<rparr>))"

definition new_job ::
  "env \<Rightarrow> state \<Rightarrow> string option \<Rightarrow> (string \<rightharpoonup> string) option \<Rightarrow> string option \<Rightarrow>
   (job_ref \<times> state) option" where
  "new_job e st name_arg attributes_arg shell_arg = new_bash_job e st name_arg attributes_arg shell_arg"

definition new_python_job ::
  "env \<Rightarrow> state \<Rightarrow> string option \<Rightarrow> (string \<rightharpoonup> string) option \<Rightarrow> (job_ref \<times> state) option" where
  "new_python_job e st name_arg attributes_arg =
     (let attrs = (case attributes_arg of None \<Rightarrow> Map.empty | Some a \<Rightarrow> a)
      in case unique_job_token e st of
           None \<Rightarrow> None
         | Some (tok, st1) \<Rightarrow>
             let j = apply_defaults st1 (default_python_image st1)
                       (Job_init PythonJob tok name_arg attrs None);
                 r = length (job_heap st1)
             in Some (r, st1\<lparr>job_heap := job_heap st1 @ [j], jobs := jobs st1 @ [r]\<rparr>))"

subsection \<open>Resource factories\<close>

text \<open>
  Modelled from the spec: the constructors of the resource classes (resource.py) are not
  among the sources. A new resource gets the next free index of the store as its
  identifier, which is never reused, and no recorded destination.
\<close>

definition alloc_resource ::
  "state \<Rightarrow> res_kind \<Rightarrow> job_ref option \<Rightarrow> string \<Rightarrow> (string \<times> res_ref) list \<Rightarrow> res_ref \<times> state" where
  "alloc_resource st k src v ms =
     (let r = length (res_heap st)
      in (r, st\<lparr>res_heap := res_heap st @
                   [\<lparr> uid = r, rkind = k, source = src, res_value = v, members = ms,
                      output_paths = {} \<rparr>]\<rparr>))"

definition draw :: "env \<Rightarrow> state \<Rightarrow> string \<times> state" where
  "draw e st = (secret_alnum_string e (draws st), st\<lparr>draws := Suc (draws st)\<rparr>)"

definition new_job_resource_file ::
  "env \<Rightarrow> state \<Rightarrow> job_ref option \<Rightarrow> string option \<Rightarrow> res_ref \<times> state" where
  "new_job_resource_file e st src value_arg =
     (let (v, st1) = (case value_arg of None \<Rightarrow> draw e st | Some v \<Rightarrow> (v, st));
          (jrf, st2) = alloc_resource st1 JobResourceFile src v []
      in (jrf, st2\<lparr>resource_map := (resource_map st2)(uid (res_heap st2 ! jrf) \<mapsto> jrf)\<rparr>))"

definition new_python_result ::
  "env \<Rightarrow> state \<Rightarrow> job_ref option \<Rightarrow> string option \<Rightarrow> res_ref \<times> state" where
  "new_python_result e st src value_arg =
     (let (v, st1) = (case value_arg of None \<Rightarrow> draw e st | Some v \<Rightarrow> (v, st));
          (jrf, st2) = alloc_resource st1 PythonResult src v []
      in (jrf, st2\<lparr>resource_map := (resource_map st2)(uid (res_heap st2 ! jrf) \<mapsto> jrf)\<rparr>))"

text \<open>
  The loop of \<open>_new_resource_group\<close> over \<open>mappings.items()\<close>, a dictionary given by its
  items in order. It carries the state, the dictionary \<open>d\<close> and the dictionary
  \<open>new_resource_map\<close>; a value that is not a string, or a template whose evaluation
  raises, ends the loop with the error and the state reached.
\<close>

definition type_text :: "pyvalue \<Rightarrow> string" where
  "type_text v = (case v of
                    PyStr s \<Rightarrow> ''<class '' @ quoted ''str'' @ ''>''
                  | PyInt n \<Rightarrow> ''<class '' @ quoted ''int'' @ ''>''
                  | PyObj ty \<Rightarrow> ty)"

fun resource_group_loop ::
  "env \<Rightarrow> job_ref option \<Rightarrow> string \<Rightarrow> (string \<times> pyvalue) list \<Rightarrow>
   state \<Rightarrow> (string \<times> res_ref) list \<Rightarrow> (nat \<rightharpoonup> res_ref) \<Rightarrow>
   (error + (string \<times> res_ref) list \<times> (nat \<rightharpoonup> res_ref)) \<times> state" where
  "resource_group_loop e src root [] st d new_resource_map = (Inr (d, new_resource_map), st)"
| "resource_group_loop e src root ((nm, code) # rest) st d new_resource_map =
     (case code of
        PyStr template \<Rightarrow>
          (case eval_fstring e root template of
             Inl err \<Rightarrow> (Inl err, st)
           | Inr v \<Rightarrow>
               let (r, st1) = new_job_resource_file e st src (Some v)
               in resource_group_loop e src root rest st1 (d @ [(nm, r)])
                    (new_resource_map(uid (res_heap st1 ! r) \<mapsto> r)))
      | _ \<Rightarrow>
          (Inl (BatchException (''value for name '' @ quoted nm @ '' is not a string. Found ''
                  @ quoted (type_text code) @ '' instead.'')), st))"

definition new_resource_group ::
  "env \<Rightarrow> state \<Rightarrow> job_ref option \<Rightarrow> (string \<times> pyvalue) list \<Rightarrow> string option \<Rightarrow>
   (error + res_ref) \<times> state" where
  "new_resource_group e st src mappings root_arg =
     (let (root, st1) = (case root_arg of None \<Rightarrow> draw e st | Some r \<Rightarrow> (r, st))
      in case resource_group_loop e src root mappings st1 [] Map.empty of
           (Inl err, st2) \<Rightarrow> (Inl err, st2)
         | (Inr (d, new_resource_map), st2) \<Rightarrow>
             let st3 = st2\<lparr>resource_map := resource_map st2 ++ new_resource_map\<rparr>;
                 (rg, st4) = alloc_resource st3 ResourceGroup src root d
             in (Inr rg, st4\<lparr>resource_map := (resource_map st4)(uid (res_heap st4 ! rg) \<mapsto> rg)\<rparr>))"

subsection \<open>\<open>Batch.write_output\<close>\<close>

text \<open>The argument of \<open>write_output\<close>: a resource, or an object of another type.\<close>

datatype pyobj = Resource res_ref | NonResource string

text \<open>
  Modelled from the spec: \<open>_add_output_path\<close> (resource.py) is not among the sources. It
  records the destination on the resource.
\<close>

definition add_output_path :: "state \<Rightarrow> res_ref \<Rightarrow> string \<Rightarrow> state" where
  "add_output_path st r dest =
     st\<lparr>res_heap := (res_heap st)
          [r := (res_heap st ! r)\<lparr>output_paths := insert dest (output_paths (res_heap st ! r))\<rparr>]\<rparr>"

definition source_is :: "state \<Rightarrow> res_ref \<Rightarrow> job_kind \<Rightarrow> bool" where
  "source_is st r k = (case source (res_heap st ! r) of
                         None \<Rightarrow> False
                       | Some j \<Rightarrow> kind (job_heap st ! j) = k)"

definition source_job :: "state \<Rightarrow> res_ref \<Rightarrow> job" where
  "source_job st r = job_heap st ! the (source (res_heap st ! r))"

definition undefined_resource :: "state \<Rightarrow> res_ref \<Rightarrow> string \<Rightarrow> error" where
  "undefined_resource st r hint =
     (case resources_inverse (source_job st r) r of
        None \<Rightarrow> KeyError
      | Some nm \<Rightarrow> BatchException (''undefined resource '' @ quoted nm @ [CHR 0x0A] @ hint))"

definition write_output :: "env \<Rightarrow> state \<Rightarrow> pyobj \<Rightarrow> string \<Rightarrow> error option \<times> state" where
  "write_output e st arg dest =
     (case arg of
        NonResource ty \<Rightarrow>
          (Some (BatchException (quoted ''write_output'' @ '' only accepts Resource inputs. Found ''
                   @ quoted ty @ ''.'')), st)
      | Resource r \<Rightarrow>
          if rkind (res_heap st ! r) = JobResourceFile \<and> source_is st r BashJob
             \<and> r \<notin> mentioned (source_job st r)
          then (Some (undefined_resource st r
                  (''Hint: resources must be defined within the job methods ''
                   @ quoted ''command'' @ '' or '' @ quoted ''declare_resource_group'')), st)
          else if rkind (res_heap st ! r) = PythonResult \<and> source_is st r PythonJob
             \<and> r \<notin> mentioned (source_job st r)
          then (Some (undefined_resource st r
                  (''Hint: resources must be bound as a result using the PythonJob ''
                   @ quoted ''call'' @ '' method'')), st)
          else
            let dest1 = (if backend st = LocalBackend \<and> url_scheme e dest = []
                         then abspath e (expanduser e dest) else dest)
            in (None, add_output_path st r dest1))"

subsection \<open>\<open>Batch.run\<close>\<close>

text \<open>
  The dependencies of a job, read from the store. An index outside the store refers to no
  object and has no dependencies.
\<close>

definition dependencies_of :: "job list \<Rightarrow> job_ref \<Rightarrow> job_ref list" where
  "dependencies_of h j = (if j < length h then dependencies (h ! j) else [])"

text \<open>
  The local function \<open>schedule_job\<close> with its loop over \<open>j._dependencies\<close>. The set
  \<open>seen\<close> and the list \<open>ordered_jobs\<close>, which the closure mutates, are passed and
  returned.
\<close>

function (domintros)
  schedule_job :: "job list \<Rightarrow> job_ref \<Rightarrow> job_ref set \<times> job_ref list \<Rightarrow> job_ref set \<times> job_ref list"
  and schedule_deps :: "job list \<Rightarrow> job_ref list \<Rightarrow> job_ref set \<times> job_ref list \<Rightarrow> job_ref set \<times> job_ref list"
where
  "schedule_job h j (seen, ordered_jobs) =
     (if j \<in> seen then (seen, ordered_jobs)
      else (case schedule_deps h (dependencies_of h j) (insert j seen, ordered_jobs) of
              (seen', ordered_jobs') \<Rightarrow> (seen', ordered_jobs' @ [j])))"
| "schedule_deps h [] s = s"
| "schedule_deps h (p # ps) s = schedule_deps h ps (schedule_job h p s)"
  by pat_completeness auto

text \<open>
  Termination: every descent adds a job to \<open>seen\<close>, and the jobs that can be met are the
  job descended into and the finitely many dependency targets of the store.
\<close>

definition dep_targets :: "job list \<Rightarrow> job_ref set" where
  "dep_targets h = set (concat (map dependencies h))"

lemma finite_dep_targets: "finite (dep_targets h)"
  by (simp add: dep_targets_def)

lemma dependencies_of_targets: "set (dependencies_of h j) \<subseteq> dep_targets h"
proof (cases "j < length h")
  case True
  then have "h ! j \<in> set h" by simp
  then show ?thesis using True
    by (auto simp: dependencies_of_def dep_targets_def intro!: bexI[where x = "h ! j"])
next
  case False
  then show ?thesis by (simp add: dependencies_of_def)
qed

lemma schedule_seen_mono_dom:
  "schedule_job_schedule_deps_dom (Inl (h, j, s)) \<Longrightarrow> fst s \<subseteq> fst (schedule_job h j s)"
  "schedule_job_schedule_deps_dom (Inr (h, ps, s)) \<Longrightarrow> fst s \<subseteq> fst (schedule_deps h ps s)"
proof (induction h j s and h ps s rule: schedule_job_schedule_deps.pinduct)
  case (1 h j seen ordered_jobs)
  then show ?case
    by (auto simp: schedule_job.psimps split: prod.splits)
next
  case (2 h s)
  then show ?case by (simp add: schedule_deps.psimps)
next
  case (3 h p ps s)
  then show ?case by (auto simp: schedule_deps.psimps)
qed

definition schedule_measure ::
  "(job list \<times> job_ref \<times> job_ref set \<times> job_ref list)
   + (job list \<times> job_ref list \<times> job_ref set \<times> job_ref list) \<Rightarrow> nat \<times> nat" where
  "schedule_measure x = (case x of
      Inl (h, j, seen, ordered_jobs) \<Rightarrow> (card ((dep_targets h \<union> {j}) - seen), 0)
    | Inr (h, ps, seen, ordered_jobs) \<Rightarrow>
        (card ((dep_targets h \<union> set ps) - seen), Suc (length ps)))"

termination schedule_job
proof (relation "inv_image (less_than <*lex*> less_than) schedule_measure")
  show "wf (inv_image (less_than <*lex*> less_than) schedule_measure)"
    by (intro wf_inv_image wf_lex_prod wf_less_than)
next
  fix h :: "job list" and j :: job_ref and seen :: "job_ref set"
    and ordered_jobs :: "job_ref list"
  assume "j \<notin> seen"
  have "(dep_targets h \<union> set (dependencies_of h j)) - insert j seen
          \<subset> (dep_targets h \<union> {j}) - seen"
    using \<open>j \<notin> seen\<close> dependencies_of_targets[of h j] by auto
  then have "card ((dep_targets h \<union> set (dependencies_of h j)) - insert j seen)
               < card ((dep_targets h \<union> {j}) - seen)"
    by (intro psubset_card_mono) (auto simp: finite_dep_targets)
  then show "(Inr (h, dependencies_of h j, insert j seen, ordered_jobs),
              Inl (h, j, seen, ordered_jobs))
       \<in> inv_image (less_than <*lex*> less_than) schedule_measure"
    by (simp add: schedule_measure_def)
next
  fix h :: "job list" and p :: job_ref and ps :: "job_ref list"
    and s :: "job_ref set \<times> job_ref list"
  have "card ((dep_targets h \<union> {p}) - fst s) \<le> card ((dep_targets h \<union> set (p # ps)) - fst s)"
    by (intro card_mono) (auto simp: finite_dep_targets)
  then show "(Inl (h, p, s), Inr (h, p # ps, s))
       \<in> inv_image (less_than <*lex*> less_than) schedule_measure"
    by (cases s) (auto simp: schedule_measure_def)
next
  fix h :: "job list" and p :: job_ref and ps :: "job_ref list"
    and s :: "job_ref set \<times> job_ref list"
  assume "schedule_job_schedule_deps_dom (Inl (h, p, s))"
  then have "fst s \<subseteq> fst (schedule_job h p s)" by (rule schedule_seen_mono_dom)
  then have "(dep_targets h \<union> set ps) - fst (schedule_job h p s)
               \<subseteq> (dep_targets h \<union> set (p # ps)) - fst s"
    by auto
  then have "card ((dep_targets h \<union> set ps) - fst (schedule_job h p s))
               \<le> card ((dep_targets h \<union> set (p # ps)) - fst s)"
    by (intro card_mono) (auto simp: finite_dep_targets)
  then show "(Inr (h, ps, schedule_job h p s), Inr (h, p # ps, s))
       \<in> inv_image (less_than <*lex*> less_than) schedule_measure"
    by (cases s; cases "schedule_job h p s") (auto simp: schedule_measure_def)
qed

text \<open>
  The dictionary \<open>{j: i for i, j in enumerate(ordered_jobs, start=1)}\<close>: a later item
  replaces an earlier one with the same key.
\<close>

definition job_index_of :: "job_ref list \<Rightarrow> (job_ref \<rightharpoonup> nat)" where
  "job_index_of ordered_jobs =
     fold (\<lambda>(i, j) m. m(j \<mapsto> i)) (enumerate 1 ordered_jobs) Map.empty"

definition cycle_detected :: error where
  "cycle_detected = BatchException ''cycle detected in dependency graph''"

text \<open>The inner loop \<open>for d in j._dependencies\<close>; a missing key of \<open>job_index\<close> raises.\<close>

fun check_dependencies :: "(job_ref \<rightharpoonup> nat) \<Rightarrow> nat \<Rightarrow> job_ref list \<Rightarrow> error option" where
  "check_dependencies job_index i [] = None"
| "check_dependencies job_index i (d # ds) =
     (case job_index d of
        None \<Rightarrow> Some KeyError
      | Some k \<Rightarrow> if k \<ge> i then Some cycle_detected else check_dependencies job_index i ds)"

text \<open>
  The outer loop \<open>for j in ordered_jobs\<close>: it stores the position in the job, then checks
  the job's dependencies. The positions stored before an error stay stored.
\<close>

fun assign_job_ids :: "(job_ref \<rightharpoonup> nat) \<Rightarrow> job_ref list \<Rightarrow> job list \<Rightarrow> error option \<times> job list" where
  "assign_job_ids job_index [] h = (None, h)"
| "assign_job_ids job_index (j # js) h =
     (case job_index j of
        None \<Rightarrow> (Some KeyError, h)
      | Some i \<Rightarrow>
          let h1 = h[j := (h ! j)\<lparr>job_id := Some i\<rparr>]
          in (case check_dependencies job_index i (dependencies_of h1 j) of
                Some err \<Rightarrow> (Some err, h1)
              | None \<Rightarrow> assign_job_ids job_index js h1))"

text \<open>
  \<open>run\<close> returns what the backend returns, or the error raised. The call of the backend's
  \<open>_run\<close> is recorded in \<open>backend_runs\<close> with the ordered jobs and the three flags; when
  it raises, the deprecated file system is left as it is.
\<close>

definition run :: "env \<Rightarrow> state \<Rightarrow> bool \<Rightarrow> bool \<Rightarrow> bool \<Rightarrow> (error + nat option) \<times> state" where
  "run e st dry_run verbose delete_scratch_on_exit =
     (case fold (schedule_job (job_heap st)) (jobs st) ({}, []) of
        (seen, ordered_jobs) \<Rightarrow>
          if card seen \<noteq> length (jobs st) then (Inl AssertionError, st)
          else (case assign_job_ids (job_index_of ordered_jobs) ordered_jobs (job_heap st) of
                  (Some err, h1) \<Rightarrow> (Inl err, st\<lparr>job_heap := h1\<rparr>)
                | (None, h1) \<Rightarrow>
                    let st1 = st\<lparr>job_heap := h1, jobs := ordered_jobs,
                                 backend_runs := backend_runs st
                                   @ [(ordered_jobs, dry_run, verbose, delete_scratch_on_exit)]\<rparr>
                    in (case backend_result e ordered_jobs dry_run of
                          Inl err \<Rightarrow> (Inl err, st1)
                        | Inr run_result \<Rightarrow> (Inr run_result, st1\<lparr>DEPRECATED_fs := None\<rparr>))))"

subsection \<open>Vocabulary for the properties of \<open>run\<close>\<close>

text \<open>
  The dependency relation of the store (from a job to each of its dependencies), the
  relation restricted to the jobs of the batch, and the batches whose dependencies all
  lie in the batch.
\<close>

definition all_deps :: "job list \<Rightarrow> (job_ref \<times> job_ref) set" where
  "all_deps h = {(x, d). d \<in> set (dependencies_of h x)}"

definition dependency_rel :: "state \<Rightarrow> (job_ref \<times> job_ref) set" where
  "dependency_rel st = {(j, d). j \<in> set (jobs st) \<and> d \<in> set (dependencies_of (job_heap st) j)}"

definition deps_closed :: "state \<Rightarrow> bool" where
  "deps_closed st = (\<forall>j\<in>set (jobs st). set (dependencies_of (job_heap st) j) \<subseteq> set (jobs st))"

text \<open>\<open>d\<close> occurs in the list before an occurrence of \<open>x\<close>.\<close>

definition before :: "'a list \<Rightarrow> 'a \<Rightarrow> 'a \<Rightarrow> bool" where
  "before xs d x = (\<exists>as bs. xs = as @ x # bs \<and> d \<in> set as)"

text \<open>
  What a traversal that starts with the set \<open>seen\<close> and appends the list \<open>new\<close> has
  achieved: the appended jobs are new and appended once, and every dependency of an
  appended job was seen at the start, or was appended earlier, or is appended later and
  reaches the job through dependencies.
\<close>

definition visit_ok :: "job list \<Rightarrow> job_ref set \<Rightarrow> job_ref list \<Rightarrow> bool" where
  "visit_ok h seen new =
     (distinct new \<and> set new \<inter> seen = {} \<and>
      (\<forall>x\<in>set new. \<forall>d\<in>set (dependencies_of h x).
          d \<in> seen \<or> before new d x \<or> (d \<in> set new \<and> (d, x) \<in> (all_deps h)\<^sup>*)))"

section \<open>The storage facade: \<open>hail/fs/router_fs.py\<close> and \<open>hail/fs/local_fs.py\<close>\<close>

subsection \<open>\<open>RouterFS.stat\<close>\<close>

text \<open>
  The asynchronous client is a parameter: the size that \<open>statfile(path)\<close> followed by
  \<open>size()\<close> returns, or the exception raised, and the answer of \<open>isdir\<close>.
\<close>

record afs =
  statfile_size :: "string \<Rightarrow> error + nat"
  isdir :: "string \<Rightarrow> error + bool"

datatype file_type = DIRECTORY | FILE

record stat_result =
  path :: string
  size_bytes :: nat
  file_typ :: file_type
  owner :: "string option"
  modification_time :: "nat option"

definition stat_result_of :: "bool \<Rightarrow> nat \<Rightarrow> string \<Rightarrow> stat_result" where
  "stat_result_of is_dir sz p =
     \<lparr> path = p, size_bytes = sz, file_typ = (if is_dir then DIRECTORY else FILE),
       owner = None, modification_time = None \<rparr>"

text \<open>\<open>path[-1]\<close> raises on the empty string.\<close>

definition async_is_dir :: "afs \<Rightarrow> string \<Rightarrow> error + bool" where
  "async_is_dir a p =
     (if p = [] then Inl IndexError
      else isdir a (if last p \<noteq> CHR ''/'' then p @ ''/'' else p))"

definition size_bytes_or_none :: "afs \<Rightarrow> string \<Rightarrow> error + nat option" where
  "size_bytes_or_none a p =
     (case statfile_size a p of
        Inr n \<Rightarrow> Inr (Some n)
      | Inl (FileNotFoundError x) \<Rightarrow> Inr None
      | Inl err \<Rightarrow> Inl err)"

text \<open>
  \<open>asyncio.gather\<close> of two lookups: when one raises, its exception is raised; when
  both raise, the exception raised first is, which the event loop decides and the first
  argument tells.
\<close>

definition gather :: "bool \<Rightarrow> error + 'a \<Rightarrow> error + 'b \<Rightarrow> error + 'a \<times> 'b" where
  "gather first_raises_first x y =
     (case x of
        Inr u \<Rightarrow> (case y of Inr v \<Rightarrow> Inr (u, v) | Inl e2 \<Rightarrow> Inl e2)
      | Inl e1 \<Rightarrow>
          (case y of
             Inr v \<Rightarrow> Inl e1
           | Inl e2 \<Rightarrow> Inl (if first_raises_first then e1 else e2)))"

text \<open>
  \<open>stat\<close>, given the client, whether the size lookup raises before the directory check
  when both raise, and the path.
\<close>

definition RouterFS_stat :: "afs \<Rightarrow> bool \<Rightarrow> string \<Rightarrow> error + stat_result" where
  "RouterFS_stat a size_first p =
     (case gather size_first (size_bytes_or_none a p) (async_is_dir a p) of
        Inl err \<Rightarrow> Inl err
      | Inr (sz, is_dir) \<Rightarrow>
          (case sz of
             None \<Rightarrow> if \<not> is_dir then Inl (FileNotFoundError p)
                     else Inr (stat_result_of True 0 p)
           | Some n \<Rightarrow> Inr (stat_result_of is_dir n p)))"

subsection \<open>\<open>LocalFS.open\<close>\<close>







section \<open>Concrete inputs\<close>

text \<open>
  A storage client with a file \<open>f\<close> of seven bytes and a directory \<open>d\<close>, a storage
  client that finds seven bytes at every path and refuses every directory check, and an
  operating system whose \<open>open\<close> fails with not-found until \<open>makedirs\<close> has been
  called once.
\<close>

definition dir_only_afs :: afs where
  "dir_only_afs =
     \<lparr> statfile_size = (\<lambda>p. if p = ''f'' then Inr 7 else Inl (FileNotFoundError p)),
       isdir = (\<lambda>p. Inr (p = ''d/'')) \<rparr>"

definition listing_denied_afs :: afs where
  "listing_denied_afs =
     \<lparr> statfile_size = (\<lambda>p. Inr 7),
       isdir = (\<lambda>p. Inl (OtherError ''permission denied'')) \<rparr>"


text \<open>
  Collaborators that never fail: a generator that returns the same string at every draw,
  destinations without a scheme, and templates that expand to themselves. A batch on the
  local backend with nothing in it, and a batch with one Bash job and one resource of a
  given kind and producer, not mentioned by the job.
\<close>

definition plain_env :: env where
  "plain_env =
     \<lparr> secret_alnum_string = (\<lambda>n. ''aaaaa''),
       url_scheme = (\<lambda>s. []),
       expanduser = (\<lambda>s. s),
       abspath = (\<lambda>s. ''/cwd/'' @ s),
       eval_fstring = (\<lambda>root code. Inr code),
       backend_result = (\<lambda>js dry_run. Inr (if dry_run then None else Some 0)),
       backend_config = ''local'' \<rparr>"

definition empty_state :: state where
  "empty_state =
     \<lparr> jobs = [], resource_map = Map.empty, input_resources = {}, job_tokens = {},
       backend = LocalBackend, batch_name = None, batch_attributes = Map.empty,
       default_image = None, default_memory = None, default_cpu = None,
       default_storage = None, default_timeout = None, default_shell = None,
       default_python_image = None, default_spot = None, DEPRECATED_fs = None,
       job_heap = [], res_heap = [], draws = 0, backend_runs = [] \<rparr>"

definition one_resource_state :: "res_kind \<Rightarrow> job_ref option \<Rightarrow> state" where
  "one_resource_state k src =
     empty_state\<lparr> jobs := [0],
                  job_heap := [Job_init BashJob ''tok'' None Map.empty None],
                  res_heap := [\<lparr> uid = 0, rkind = k, source = src, res_value = ''ofile'',
                                  members = [], output_paths = {} \<rparr>],
                  resource_map := [0 \<mapsto> 0] \<rparr>"

definition named_resource_state :: state where
  "named_resource_state =
     (one_resource_state JobResourceFile (Some 0))
       \<lparr> job_heap := [(Job_init BashJob ''tok'' None Map.empty None)
                        \<lparr> resources_inverse := [0 \<mapsto> ''ofile''] \<rparr>] \<rparr>"

text \<open>
  Three batches on the local backend. In the first, job 0 depends on job 2 and job 1 on
  job 0. In the second, jobs 0 and 1 depend on each other. In the third they do too, and
  job 0 also depends on job 2, which exists and is not a job of the batch.
\<close>

definition job_with_deps :: "job_ref list \<Rightarrow> job" where
  "job_with_deps ds = (Job_init BashJob ''tok'' None Map.empty None)\<lparr>dependencies := ds\<rparr>"

definition dag_state :: state where
  "dag_state =
     empty_state\<lparr> jobs := [0, 1, 2],
                  job_heap := [job_with_deps [2], job_with_deps [0], job_with_deps []] \<rparr>"

definition cycle_state :: state where
  "cycle_state =
     empty_state\<lparr> jobs := [0, 1],
                  job_heap := [job_with_deps [1], job_with_deps [0]] \<rparr>"

definition foreign_cycle_state :: state where
  "foreign_cycle_state =
     empty_state\<lparr> jobs := [0, 1],
                  job_heap := [job_with_deps [1, 2], job_with_deps [0], job_with_deps []] \<rparr>"

section \<open>Properties of the job and resource factories\<close>

lemma redraw_unused: "tok \<notin> used \<Longrightarrow> redraw gen used tok k = Some (tok, k)"
  by (subst redraw.simps) simp

text \<open>
  C5. The two tokens of two calls of \<open>new_job\<close> on one batch should differ even when
  the generator repeats itself. They do not: nothing adds a minted token to
  \<open>job_tokens\<close>, so the loop of \<open>_unique_job_token\<close> tests against a set that stays
  empty. With a generator that always returns the same string, two calls on an empty
  batch return two jobs with the same token.
\<close>

theorem new_job_tokens_collide:
  "(case new_job plain_env empty_state None None None of
      None \<Rightarrow> False
    | Some (j1, st1) \<Rightarrow>
        (case new_job plain_env st1 None None None of
           None \<Rightarrow> False
         | Some (j2, st2) \<Rightarrow>
             j1 \<noteq> j2 \<and> jobs st2 = [j1, j2]
           \<and> token (job_heap st2 ! j1) = ''aaaaa'' \<and> token (job_heap st2 ! j2) = ''aaaaa''
           \<and> job_tokens st1 = {} \<and> job_tokens st2 = {}))"
  by (simp add: new_job_def new_bash_job_def unique_job_token_def redraw_unused
        apply_defaults_def Job_init_def plain_env_def empty_state_def Let_def)

text \<open>
  C6. A call of \<open>new_bash_job\<close> or \<open>new_python_job\<close> whose attributes contain the
  key \<open>name\<close> should fail. It does not: the factories forward the attributes without
  the check that \<open>Batch.__init__\<close> makes, and the job is appended to the batch.
\<close>

theorem new_job_accepts_name_attribute:
  "(case new_bash_job plain_env empty_state None (Some [''name'' \<mapsto> ''x'']) None of
      None \<Rightarrow> False
    | Some (j, st1) \<Rightarrow>
        jobs st1 = [j] \<and> attributes (job_heap st1 ! j) ''name'' = Some ''x'')
   \<and> (case new_python_job plain_env empty_state None (Some [''name'' \<mapsto> ''x'']) of
      None \<Rightarrow> False
    | Some (j, st1) \<Rightarrow>
        jobs st1 = [j] \<and> attributes (job_heap st1 ! j) ''name'' = Some ''x'')
   \<and> (\<exists>msg. Batch_init plain_env None None (Some [''name'' \<mapsto> ''x'']) None None None None None
          None None None = Inl (BatchException msg))"
  by (simp add: new_bash_job_def new_python_job_def unique_job_token_def redraw_unused
        apply_defaults_def Job_init_def plain_env_def empty_state_def Let_def Batch_init_def)

text \<open>
  C7. A call of \<open>_new_resource_group\<close> that fails on a value that is not a string
  should register nothing. It does: the resources minted for the earlier members were
  registered by \<open>_new_job_resource_file\<close> as they were minted, before
  \<open>new_resource_map\<close> is merged, and stay registered.
\<close>

theorem resource_group_partial_registration:
  "(case new_resource_group plain_env (one_resource_state InputResourceFile None) (Some 0)
          [(''a'', PyStr ''x''), (''b'', PyInt 5)] (Some ''root'') of
      (r, st1) \<Rightarrow>
        r = Inl (BatchException (''value for name '' @ quoted ''b'' @ '' is not a string. Found ''
                   @ quoted (''<class '' @ quoted ''int'' @ ''>'') @ '' instead.''))
      \<and> resource_map (one_resource_state InputResourceFile None) 1 = None
      \<and> resource_map st1 1 = Some 1
      \<and> length (res_heap st1) = 2
      \<and> res_value (res_heap st1 ! 1) = ''x'')"
  by (simp add: new_resource_group_def new_job_resource_file_def alloc_resource_def type_text_def
        one_resource_state_def plain_env_def empty_state_def Let_def)

section \<open>Properties of \<open>write_output\<close>\<close>

text \<open>
  C3, as amended. For a job output file produced by a Bash job, and for a callable result
  produced by a Python job, that the producing job has not mentioned, \<open>write_output\<close>
  fails for every destination and changes nothing; when the job has a symbolic name for
  the resource, the error is the binding error whose message starts with
  \<open>undefined resource\<close> and that name. (Resource groups, and job output files
  produced by a Python job, are not checked.)
\<close>

theorem write_output_unmentioned:
  assumes "(rkind (res_heap st ! r) = JobResourceFile \<and> source_is st r BashJob)
         \<or> (rkind (res_heap st ! r) = PythonResult \<and> source_is st r PythonJob)"
    and "r \<notin> mentioned (source_job st r)"
  shows "\<exists>err. write_output e st (Resource r) dest = (Some err, st)
           \<and> (\<forall>nm. resources_inverse (source_job st r) r = Some nm \<longrightarrow>
                 (\<exists>hint. err = BatchException (''undefined resource '' @ quoted nm @ [CHR 0x0A] @ hint)))"
  using assms by (auto simp: write_output_def undefined_resource_def)

theorem write_output_unmentioned_witness:
  "write_output plain_env named_resource_state (Resource 0) ''gs://bucket/out''
     = (Some (BatchException (''undefined resource '' @ quoted ''ofile'' @ [CHR 0x0A]
               @ ''Hint: resources must be defined within the job methods ''
               @ quoted ''command'' @ '' or '' @ quoted ''declare_resource_group'')),
        named_resource_state)"
proof -
  have k: "rkind (res_heap named_resource_state ! 0) = JobResourceFile"
    and s: "source_is named_resource_state 0 BashJob"
    by (simp_all add: named_resource_state_def one_resource_state_def empty_state_def
          source_is_def Job_init_def)
  have a: "(rkind (res_heap named_resource_state ! 0) = JobResourceFile \<and> source_is named_resource_state 0 BashJob)
         \<or> (rkind (res_heap named_resource_state ! 0) = PythonResult \<and> source_is named_resource_state 0 PythonJob)"
    using k s by simp
  have b: "0 \<notin> mentioned (source_job named_resource_state 0)"
    by (simp add: named_resource_state_def one_resource_state_def empty_state_def source_job_def Job_init_def)
  have c: "resources_inverse (source_job named_resource_state 0) 0 = Some ''ofile''"
    by (simp add: named_resource_state_def one_resource_state_def empty_state_def source_job_def Job_init_def)
  from write_output_unmentioned [OF a b, of plain_env "''gs://bucket/out''"] c
  obtain err hint where
    e1: "write_output plain_env named_resource_state (Resource 0) ''gs://bucket/out'' = (Some err, named_resource_state)"
    and e2: "err = BatchException (''undefined resource '' @ quoted ''ofile'' @ [CHR 0x0A] @ hint)"
    by blast
  have "fst (write_output plain_env named_resource_state (Resource 0) ''gs://bucket/out'')
     = Some (BatchException (''undefined resource '' @ quoted ''ofile'' @ [CHR 0x0A]
               @ ''Hint: resources must be defined within the job methods ''
               @ quoted ''command'' @ '' or '' @ quoted ''declare_resource_group''))"
    using k s b c by (simp add: write_output_def undefined_resource_def)
  with e1 show ?thesis by simp
qed

text \<open>
  The claim as stated fails on a resource group produced by a job that has not mentioned
  it: \<open>write_output\<close> succeeds.
\<close>

theorem write_output_group_counterexample:
  "rkind (res_heap (one_resource_state ResourceGroup (Some 0)) ! 0) = ResourceGroup
   \<and> source (res_heap (one_resource_state ResourceGroup (Some 0)) ! 0) = Some 0
   \<and> 0 \<notin> mentioned (job_heap (one_resource_state ResourceGroup (Some 0)) ! 0)
   \<and> fst (write_output plain_env (one_resource_state ResourceGroup (Some 0)) (Resource 0) ''out'') = None"
  by (simp add: write_output_def one_resource_state_def empty_state_def Job_init_def)

text \<open>
  C4. For every input resource file and every destination, \<open>write_output\<close> raises
  nothing, whatever the jobs have mentioned, and adds the destination to the
  destinations recorded on the resource: the absolute path of the destination when the
  backend is local and the destination has no scheme, the destination itself otherwise.
\<close>

theorem write_output_input_file:
  assumes "r < length (res_heap st)" and "rkind (res_heap st ! r) = InputResourceFile"
  shows "fst (write_output e st (Resource r) dest) = None
       \<and> output_paths (res_heap (snd (write_output e st (Resource r) dest)) ! r)
           = insert (if backend st = LocalBackend \<and> url_scheme e dest = []
                     then abspath e (expanduser e dest) else dest)
               (output_paths (res_heap st ! r))"
  using assms by (simp add: write_output_def add_output_path_def Let_def)

theorem write_output_input_file_witness:
  "fst (write_output plain_env (one_resource_state InputResourceFile None) (Resource 0) ''out.txt'') = None
   \<and> output_paths (res_heap (snd (write_output plain_env (one_resource_state InputResourceFile None)
                                     (Resource 0) ''out.txt'')) ! 0) = {''/cwd/out.txt''}"
proof -
  have a: "0 < length (res_heap (one_resource_state InputResourceFile None))"
    and b: "rkind (res_heap (one_resource_state InputResourceFile None) ! 0) = InputResourceFile"
    by (simp_all add: one_resource_state_def empty_state_def)
  show ?thesis
    using write_output_input_file [OF a b, of plain_env "''out.txt''"]
    by (simp add: one_resource_state_def empty_state_def plain_env_def)
qed

text \<open>
  C10. When \<open>write_output\<close> raises, for any argument and destination, the state is
  what it was before the call; in particular no destination has been recorded.
\<close>

theorem write_output_error_atomic:
  "fst (write_output e st arg dest) = Some err \<Longrightarrow> snd (write_output e st arg dest) = st"
  by (auto simp: write_output_def Let_def split: pyobj.splits if_splits)

theorem write_output_error_atomic_witness:
  "fst (write_output plain_env (one_resource_state JobResourceFile (Some 0)) (NonResource ''int'') ''out'')
     = Some (BatchException (quoted ''write_output'' @ '' only accepts Resource inputs. Found ''
                               @ quoted ''int'' @ ''.''))
   \<and> snd (write_output plain_env (one_resource_state JobResourceFile (Some 0)) (NonResource ''int'') ''out'')
     = one_resource_state JobResourceFile (Some 0)
   \<and> fst (write_output plain_env (one_resource_state JobResourceFile (Some 0)) (Resource 0) ''out'')
     = Some KeyError
   \<and> snd (write_output plain_env (one_resource_state JobResourceFile (Some 0)) (Resource 0) ''out'')
     = one_resource_state JobResourceFile (Some 0)"
proof -
  let ?st = "one_resource_state JobResourceFile (Some 0)"
  have a: "fst (write_output plain_env ?st (NonResource ''int'') ''out'')
     = Some (BatchException (quoted ''write_output'' @ '' only accepts Resource inputs. Found ''
                               @ quoted ''int'' @ ''.''))"
    by (simp add: write_output_def)
  have b: "fst (write_output plain_env ?st (Resource 0) ''out'') = Some KeyError"
    by (simp add: write_output_def one_resource_state_def empty_state_def source_is_def
          source_job_def undefined_resource_def Job_init_def)
  show ?thesis
    using write_output_error_atomic [OF a] write_output_error_atomic [OF b] a b by simp
qed

section \<open>Properties of \<open>run\<close>\<close>

subsection \<open>The traversal\<close>

lemma before_append1: "before xs d x \<Longrightarrow> before (xs @ ys) d x"
  unfolding before_def by (metis append.assoc append_Cons)

lemma before_append2: "before ys d x \<Longrightarrow> before (xs @ ys) d x"
proof -
  assume "before ys d x"
  then obtain as bs where "ys = as @ x # bs" "d \<in> set as" unfolding before_def by blast
  then have "xs @ ys = (xs @ as) @ x # bs" "d \<in> set (xs @ as)" by simp_all
  then show ?thesis unfolding before_def by blast
qed

lemma before_append3: "d \<in> set xs \<Longrightarrow> x \<in> set ys \<Longrightarrow> before (xs @ ys) d x"
proof -
  assume d: "d \<in> set xs" and "x \<in> set ys"
  then obtain as bs where "ys = as @ x # bs" by (meson split_list)
  then have "xs @ ys = (xs @ as) @ x # bs" "d \<in> set (xs @ as)" using d by simp_all
  then show ?thesis unfolding before_def by blast
qed

lemma before_nth:
  assumes "before xs d x"
  shows "\<exists>i k. i < k \<and> k < length xs \<and> xs ! i = d \<and> xs ! k = x"
proof -
  from assms obtain as bs where xs: "xs = as @ x # bs" and d: "d \<in> set as"
    unfolding before_def by blast
  from d obtain i where i: "i < length as" "as ! i = d" by (auto simp: in_set_conv_nth)
  have "xs ! i = d" using i xs by (simp add: nth_append)
  moreover have "xs ! length as = x" "length as < length xs" using xs by simp_all
  ultimately show ?thesis using i(1) by blast
qed

lemma visit_ok_Nil: "visit_ok h seen []"
  by (simp add: visit_ok_def)

lemma visit_ok_append:
  assumes a: "visit_ok h seen n1" and b: "visit_ok h (seen \<union> set n1) n2"
  shows "visit_ok h seen (n1 @ n2)"
  unfolding visit_ok_def
proof (intro conjI ballI)
  show "distinct (n1 @ n2)" using a b by (auto simp: visit_ok_def)
  show "set (n1 @ n2) \<inter> seen = {}" using a b by (auto simp: visit_ok_def)
next
  fix x d
  assume x: "x \<in> set (n1 @ n2)" and d: "d \<in> set (dependencies_of h x)"
  show "d \<in> seen \<or> before (n1 @ n2) d x \<or> (d \<in> set (n1 @ n2) \<and> (d, x) \<in> (all_deps h)\<^sup>*)"
  proof (cases "x \<in> set n1")
    case True
    with a d have "d \<in> seen \<or> before n1 d x \<or> (d \<in> set n1 \<and> (d, x) \<in> (all_deps h)\<^sup>*)"
      by (simp add: visit_ok_def)
    then show ?thesis using before_append1 by fastforce
  next
    case False
    with x have x2: "x \<in> set n2" by simp
    with b d have "d \<in> seen \<union> set n1 \<or> before n2 d x \<or> (d \<in> set n2 \<and> (d, x) \<in> (all_deps h)\<^sup>*)"
      by (simp add: visit_ok_def)
    then show ?thesis using before_append2 before_append3[OF _ x2] by fastforce
  qed
qed

lemma visit_ok_snoc:
  assumes j: "j \<notin> seen" and a: "visit_ok h (insert j seen) n0"
    and deps: "set (dependencies_of h j) \<subseteq> insert j seen \<union> set n0"
    and reach: "\<forall>x\<in>set n0. (j, x) \<in> (all_deps h)\<^sup>*"
  shows "visit_ok h seen (n0 @ [j])"
  unfolding visit_ok_def
proof (intro conjI ballI)
  show "distinct (n0 @ [j])" using a by (auto simp: visit_ok_def)
  show "set (n0 @ [j]) \<inter> seen = {}" using a j by (auto simp: visit_ok_def)
next
  fix x d
  assume x: "x \<in> set (n0 @ [j])" and d: "d \<in> set (dependencies_of h x)"
  show "d \<in> seen \<or> before (n0 @ [j]) d x \<or> (d \<in> set (n0 @ [j]) \<and> (d, x) \<in> (all_deps h)\<^sup>*)"
  proof (cases "x \<in> set n0")
    case True
    with a d have "d \<in> insert j seen \<or> before n0 d x \<or> (d \<in> set n0 \<and> (d, x) \<in> (all_deps h)\<^sup>*)"
      by (simp add: visit_ok_def)
    moreover have "(j, x) \<in> (all_deps h)\<^sup>*" using reach True by blast
    ultimately show ?thesis using before_append1 by fastforce
  next
    case False
    with x have xj: "x = j" by simp
    with d deps have "d = j \<or> d \<in> seen \<or> d \<in> set n0" by blast
    then show ?thesis using xj before_append3[of d n0 j "[j]"] by auto
  qed
qed

lemma schedule_inv:
  "\<exists>new. schedule_job h j s = (fst s \<union> set new, snd s @ new) \<and> visit_ok h (fst s) new
        \<and> j \<in> fst s \<union> set new \<and> (\<forall>x\<in>set new. (j, x) \<in> (all_deps h)\<^sup>*)"
  "\<exists>new. schedule_deps h ps s = (fst s \<union> set new, snd s @ new) \<and> visit_ok h (fst s) new
        \<and> set ps \<subseteq> fst s \<union> set new \<and> (\<forall>x\<in>set new. \<exists>p\<in>set ps. (p, x) \<in> (all_deps h)\<^sup>*)"
proof (induction h j s and h ps s rule: schedule_job_schedule_deps.induct)
  case (1 h j seen ordered_jobs)
  show ?case
  proof (cases "j \<in> seen")
    case True
    then have "schedule_job h j (seen, ordered_jobs) = (seen \<union> set [], ordered_jobs @ [])" by simp
    then show ?thesis using True visit_ok_Nil[of h seen]
      by (intro exI[of _ "[]"]) simp
  next
    case False
    from 1[OF False] obtain n0 where
      r: "schedule_deps h (dependencies_of h j) (insert j seen, ordered_jobs)
            = (insert j seen \<union> set n0, ordered_jobs @ n0)"
      and ok: "visit_ok h (insert j seen) n0"
      and sub: "set (dependencies_of h j) \<subseteq> insert j seen \<union> set n0"
      and reach: "\<forall>x\<in>set n0. \<exists>p\<in>set (dependencies_of h j). (p, x) \<in> (all_deps h)\<^sup>*"
      by auto
    have reachj: "\<forall>x\<in>set n0. (j, x) \<in> (all_deps h)\<^sup>*"
    proof
      fix x assume "x \<in> set n0"
      with reach obtain p where p: "p \<in> set (dependencies_of h j)" "(p, x) \<in> (all_deps h)\<^sup>*" by blast
      then have "(j, p) \<in> all_deps h" by (simp add: all_deps_def)
      then show "(j, x) \<in> (all_deps h)\<^sup>*" using p(2) by (rule converse_rtrancl_into_rtrancl)
    qed
    have res: "schedule_job h j (seen, ordered_jobs) = (seen \<union> set (n0 @ [j]), ordered_jobs @ (n0 @ [j]))"
      using False r by simp
    have "visit_ok h seen (n0 @ [j])" using visit_ok_snoc[OF False ok sub reachj] .
    with res reachj show ?thesis
      by (intro exI[of _ "n0 @ [j]"]) auto
  qed
next
  case (2 h s)
  show ?case using visit_ok_Nil[of h "fst s"] by (intro exI[of _ "[]"]) simp
next
  case (3 h p ps s)
  from 3(1) obtain n1 where
    r1: "schedule_job h p s = (fst s \<union> set n1, snd s @ n1)"
    and ok1: "visit_ok h (fst s) n1"
    and p1: "p \<in> fst s \<union> set n1"
    and reach1: "\<forall>x\<in>set n1. (p, x) \<in> (all_deps h)\<^sup>*"
    by blast
  from 3(2) r1 obtain n2 where
    r2: "schedule_deps h ps (schedule_job h p s) = (fst s \<union> set n1 \<union> set n2, snd s @ n1 @ n2)"
    and ok2: "visit_ok h (fst s \<union> set n1) n2"
    and p2: "set ps \<subseteq> fst s \<union> set n1 \<union> set n2"
    and reach2: "\<forall>x\<in>set n2. \<exists>q\<in>set ps. (q, x) \<in> (all_deps h)\<^sup>*"
    by auto
  have "visit_ok h (fst s) (n1 @ n2)" using visit_ok_append[OF ok1 ok2] .
  moreover have "schedule_deps h (p # ps) s = (fst s \<union> set (n1 @ n2), snd s @ (n1 @ n2))"
    using r2 by (simp add: Un_assoc)
  moreover have "set (p # ps) \<subseteq> fst s \<union> set (n1 @ n2)" using p1 p2 by auto
  moreover have "\<forall>x\<in>set (n1 @ n2). \<exists>q\<in>set (p # ps). (q, x) \<in> (all_deps h)\<^sup>*"
    using reach1 reach2 by auto
  ultimately show ?case by (intro exI[of _ "n1 @ n2"]) blast
qed

lemma fold_schedule_job: "fold (schedule_job h) js s = schedule_deps h js s"
  by (induction js arbitrary: s) simp_all

subsection \<open>The index dictionary and the two loops over the ordered jobs\<close>

lemma fold_index_notin:
  "x \<notin> set xs \<Longrightarrow> fold (\<lambda>(i, j) m. m(j \<mapsto> i)) (enumerate n xs) m x = m x"
  by (induction xs arbitrary: n m) (auto simp add: fun_upd_same fun_upd_other simp del: fun_upd_apply)

lemma fold_index_nth:
  "distinct xs \<Longrightarrow> k < length xs \<Longrightarrow>
   fold (\<lambda>(i, j) m. m(j \<mapsto> i)) (enumerate n xs) m (xs ! k) = Some (n + k)"
proof (induction xs arbitrary: n m k)
  case Nil
  then show ?case by simp
next
  case (Cons a xs)
  show ?case
  proof (cases k)
    case 0
    have "a \<notin> set xs" using Cons.prems by simp
    from fold_index_notin[OF this, of "Suc n" "m(a \<mapsto> n)"] show ?thesis
      using 0 by (simp add: fun_upd_same fun_upd_other del: fun_upd_apply)
  next
    case (Suc k')
    then show ?thesis using Cons.prems Cons.IH[of k' "Suc n" "m(a \<mapsto> n)"]
      by (simp add: fun_upd_same fun_upd_other del: fun_upd_apply)
  qed
qed

lemma job_index_of_nth:
  "distinct xs \<Longrightarrow> k < length xs \<Longrightarrow> job_index_of xs (xs ! k) = Some (Suc k)"
  by (simp add: job_index_of_def fold_index_nth)

lemma job_index_of_notin: "x \<notin> set xs \<Longrightarrow> job_index_of xs x = None"
  by (simp add: job_index_of_def fold_index_notin)

lemma dependencies_of_job_id [simp]:
  "dependencies_of (h[j := (h ! j)\<lparr>job_id := v\<rparr>]) x = dependencies_of h x"
  by (cases "x = j") (auto simp: dependencies_of_def)

lemma check_dependencies_eq:
  "\<forall>d\<in>set ds. idx d \<noteq> None \<Longrightarrow>
   check_dependencies idx i ds
     = (if \<exists>d\<in>set ds. the (idx d) \<ge> i then Some cycle_detected else None)"
  by (induction ds) (auto split: option.splits)

lemma assign_job_ids_ok:
  assumes "\<forall>j\<in>set js. idx j \<noteq> None \<and> (\<forall>d\<in>set (dependencies_of h j). idx d \<noteq> None \<and> the (idx d) < the (idx j))"
  shows "\<exists>h1. assign_job_ids idx js h = (None, h1) \<and> length h1 = length h
           \<and> (\<forall>k<length h. h1 ! k = (if k \<in> set js then (h ! k)\<lparr>job_id := idx k\<rparr> else h ! k))"
  using assms
proof (induction js arbitrary: h)
  case Nil
  then show ?case by simp
next
  case (Cons j js)
  from Cons.prems obtain i where i: "idx j = Some i" by auto
  let ?h1 = "h[j := (h ! j)\<lparr>job_id := Some i\<rparr>]"
  have chk: "check_dependencies idx i (dependencies_of ?h1 j) = None"
    using Cons.prems i by (subst check_dependencies_eq) (auto simp: not_le)
  have "\<forall>j\<in>set js. idx j \<noteq> None \<and> (\<forall>d\<in>set (dependencies_of ?h1 j). idx d \<noteq> None \<and> the (idx d) < the (idx j))"
    using Cons.prems by simp
  from Cons.IH[OF this] obtain h2 where
    h2: "assign_job_ids idx js ?h1 = (None, h2)" "length h2 = length ?h1"
      "\<forall>k<length ?h1. h2 ! k = (if k \<in> set js then (?h1 ! k)\<lparr>job_id := idx k\<rparr> else ?h1 ! k)"
    by blast
  have "assign_job_ids idx (j # js) h = (None, h2)"
    using i chk h2(1) by (simp add: Let_def)
  moreover have "length h2 = length h" using h2(2) by simp
  moreover have "\<forall>k<length h. h2 ! k = (if k \<in> set (j # js) then (h ! k)\<lparr>job_id := idx k\<rparr> else h ! k)"
  proof (intro allI impI)
    fix k assume k: "k < length h"
    then have "h2 ! k = (if k \<in> set js then (?h1 ! k)\<lparr>job_id := idx k\<rparr> else ?h1 ! k)"
      using h2(3) by simp
    then show "h2 ! k = (if k \<in> set (j # js) then (h ! k)\<lparr>job_id := idx k\<rparr> else h ! k)"
      using k i by (cases "k = j") auto
  qed
  ultimately show ?case by blast
qed

lemma assign_job_ids_cycle:
  assumes "\<forall>j\<in>set js. idx j \<noteq> None \<and> (\<forall>d\<in>set (dependencies_of h j). idx d \<noteq> None)"
    and "\<exists>j\<in>set js. \<exists>d\<in>set (dependencies_of h j). the (idx d) \<ge> the (idx j)"
  shows "fst (assign_job_ids idx js h) = Some cycle_detected"
  using assms
proof (induction js arbitrary: h)
  case Nil
  then show ?case by simp
next
  case (Cons j js)
  from Cons.prems obtain i where i: "idx j = Some i" by auto
  let ?h1 = "h[j := (h ! j)\<lparr>job_id := Some i\<rparr>]"
  have chk: "check_dependencies idx i (dependencies_of ?h1 j)
      = (if \<exists>d\<in>set (dependencies_of h j). the (idx d) \<ge> i then Some cycle_detected else None)"
    using Cons.prems(1) by (subst check_dependencies_eq) auto
  show ?case
  proof (cases "\<exists>d\<in>set (dependencies_of h j). the (idx d) \<ge> i")
    case True
    then show ?thesis using i chk by (simp add: Let_def)
  next
    case False
    with Cons.prems(2) i have viol: "\<exists>j\<in>set js. \<exists>d\<in>set (dependencies_of ?h1 j). the (idx d) \<ge> the (idx j)"
      by auto
    have "\<forall>j\<in>set js. idx j \<noteq> None \<and> (\<forall>d\<in>set (dependencies_of ?h1 j). idx d \<noteq> None)"
      using Cons.prems(1) by simp
    from Cons.IH[OF this viol] show ?thesis using i chk False by (simp add: Let_def)
  qed
qed

subsection \<open>The linearization as a whole\<close>

lemma linearize_facts:
  obtains ord where
    "fold (schedule_job h) js ({}, []) = (set ord, ord)"
    "distinct ord"
    "set js \<subseteq> set ord"
    "\<forall>x\<in>set ord. \<exists>p\<in>set js. (p, x) \<in> (all_deps h)\<^sup>*"
    "\<forall>x\<in>set ord. \<forall>d\<in>set (dependencies_of h x).
        before ord d x \<or> (d \<in> set ord \<and> (d, x) \<in> (all_deps h)\<^sup>*)"
proof -
  from schedule_inv(2)[of h js "({}, [])"] obtain new where
    r: "schedule_deps h js ({}, []) = (set new, new)"
    and ok: "visit_ok h {} new"
    and sub: "set js \<subseteq> set new"
    and reach: "\<forall>x\<in>set new. \<exists>p\<in>set js. (p, x) \<in> (all_deps h)\<^sup>*"
    by auto
  show thesis
  proof (rule that[of new])
    show "fold (schedule_job h) js ({}, []) = (set new, new)"
      using r by (simp add: fold_schedule_job)
    show "distinct new" using ok by (simp add: visit_ok_def)
    show "set js \<subseteq> set new" by (rule sub)
    show "\<forall>x\<in>set new. \<exists>p\<in>set js. (p, x) \<in> (all_deps h)\<^sup>*" by (rule reach)
    show "\<forall>x\<in>set new. \<forall>d\<in>set (dependencies_of h x).
        before new d x \<or> (d \<in> set new \<and> (d, x) \<in> (all_deps h)\<^sup>*)"
      using ok by (simp add: visit_ok_def)
  qed
qed

lemma before_in_set: "before xs d x \<Longrightarrow> d \<in> set xs \<and> x \<in> set xs"
  unfolding before_def by auto

lemma closed_reach:
  assumes "deps_closed st" and "p \<in> set (jobs st)"
    and "(p, x) \<in> (all_deps (job_heap st))\<^sup>*"
  shows "x \<in> set (jobs st) \<and> (p, x) \<in> (dependency_rel st)\<^sup>*"
  using assms(3)
proof (induction rule: rtrancl_induct)
  case base
  show ?case using assms(2) by simp
next
  case (step y z)
  then have y: "y \<in> set (jobs st)" and py: "(p, y) \<in> (dependency_rel st)\<^sup>*" by simp_all
  from step(2) have zd: "z \<in> set (dependencies_of (job_heap st) y)" by (simp add: all_deps_def)
  with y assms(1) have "z \<in> set (jobs st)" by (auto simp: deps_closed_def)
  moreover have "(y, z) \<in> dependency_rel st" using y zd by (simp add: dependency_rel_def)
  ultimately show ?case using py by (meson rtrancl.rtrancl_into_rtrancl)
qed

lemma job_index_of_in_set:
  assumes "distinct xs" and "x \<in> set xs"
  shows "\<exists>k<length xs. xs ! k = x \<and> job_index_of xs x = Some (Suc k)"
proof -
  from assms(2) obtain k where "k < length xs" "xs ! k = x" by (auto simp: in_set_conv_nth)
  then show ?thesis using job_index_of_nth[OF assms(1), of k] by auto
qed

lemma job_index_of_before:
  assumes "distinct xs" and "before xs d x"
  shows "\<exists>i k. job_index_of xs d = Some i \<and> job_index_of xs x = Some k \<and> i < k"
proof -
  from before_nth[OF assms(2)] obtain i k where
    "i < k" "k < length xs" "xs ! i = d" "xs ! k = x" by blast
  then show ?thesis
    using job_index_of_nth[OF assms(1), of i] job_index_of_nth[OF assms(1), of k] by auto
qed

text \<open>A cycle among the jobs of the batch leaves an edge whose positions do not decrease.\<close>

lemma cycle_has_inversion:
  assumes cyc: "\<not> acyclic (dependency_rel st)"
    and sub: "set (jobs st) \<subseteq> set ord"
  shows "\<exists>j\<in>set ord. \<exists>d\<in>set (dependencies_of (job_heap st) j). pos d \<ge> (pos j :: nat)"
proof (rule ccontr)
  assume "\<not> ?thesis"
  then have dec: "\<And>j d. j \<in> set ord \<Longrightarrow> d \<in> set (dependencies_of (job_heap st) j) \<Longrightarrow> pos d < pos j"
    by (meson not_le)
  have step: "(a, b) \<in> (dependency_rel st)\<^sup>+ \<Longrightarrow> pos b < pos a" for a b
  proof (induction rule: trancl_induct)
    case (base y)
    then show ?case using dec sub by (auto simp: dependency_rel_def)
  next
    case (step y z)
    then have "pos z < pos y" using dec sub by (auto simp: dependency_rel_def)
    with step show ?case by simp
  qed
  from cyc obtain x where "(x, x) \<in> (dependency_rel st)\<^sup>+" by (auto simp: acyclic_def)
  from step[OF this] show False by simp
qed

lemma run_assertion:
  assumes "fold (schedule_job (job_heap st)) (jobs st) ({}, []) = (seen, ord)"
    and "card seen \<noteq> length (jobs st)"
  shows "run e st dry_run verbose del = (Inl AssertionError, st)"
  unfolding run_def using assms by simp

lemma run_raises:
  assumes "fold (schedule_job (job_heap st)) (jobs st) ({}, []) = (seen, ord)"
    and "card seen = length (jobs st)"
    and "assign_job_ids (job_index_of ord) ord (job_heap st) = (Some err, h1)"
  shows "run e st dry_run verbose del = (Inl err, st\<lparr>job_heap := h1\<rparr>)"
  unfolding run_def using assms by simp

lemma run_delegates:
  assumes "fold (schedule_job (job_heap st)) (jobs st) ({}, []) = (seen, ord)"
    and "card seen = length (jobs st)"
    and "assign_job_ids (job_index_of ord) ord (job_heap st) = (None, h1)"
  shows "fst (run e st dry_run verbose del) = backend_result e ord dry_run"
    and "jobs (snd (run e st dry_run verbose del)) = ord"
    and "job_heap (snd (run e st dry_run verbose del)) = h1"
    and "backend_runs (snd (run e st dry_run verbose del))
           = backend_runs st @ [(ord, dry_run, verbose, del)]"
  unfolding run_def using assms
  by (simp_all add: Let_def split: sum.split)

lemma closed_same_jobs:
  assumes closed: "deps_closed st"
    and sub: "set (jobs st) \<subseteq> set ord"
    and reach: "\<forall>x\<in>set ord. \<exists>p\<in>set (jobs st). (p, x) \<in> (all_deps (job_heap st))\<^sup>*"
  shows "set ord = set (jobs st)"
proof
  show "set ord \<subseteq> set (jobs st)"
  proof
    fix x assume "x \<in> set ord"
    with reach obtain p where "p \<in> set (jobs st)" "(p, x) \<in> (all_deps (job_heap st))\<^sup>*" by blast
    with closed_reach[OF closed] show "x \<in> set (jobs st)" by blast
  qed
  show "set (jobs st) \<subseteq> set ord" by (rule sub)
qed

lemma acyclic_before:
  assumes closed: "deps_closed st" and acyc: "acyclic (dependency_rel st)"
    and x: "x \<in> set (jobs st)" and d: "d \<in> set (dependencies_of (job_heap st) x)"
    and alt: "before ord d x \<or> (d \<in> set ord \<and> (d, x) \<in> (all_deps (job_heap st))\<^sup>*)"
  shows "before ord d x"
proof (rule ccontr)
  assume "\<not> before ord d x"
  with alt have r: "(d, x) \<in> (all_deps (job_heap st))\<^sup>*" by blast
  have dj: "d \<in> set (jobs st)" using closed x d by (auto simp: deps_closed_def)
  from closed_reach[OF closed dj r] have "(d, x) \<in> (dependency_rel st)\<^sup>*" by simp
  moreover have "(x, d) \<in> dependency_rel st" using x d by (simp add: dependency_rel_def)
  ultimately have "(x, x) \<in> (dependency_rel st)\<^sup>+" by (rule rtrancl_into_trancl2[rotated])
  with acyc show False by (simp add: acyclic_def)
qed

subsection \<open>The claims about \<open>run\<close>\<close>

text \<open>
  C1. For every batch whose job list holds each job once, whose jobs are objects of the
  store, whose dependencies all lie in the batch and whose dependency relation is
  acyclic, \<open>run\<close> replaces the job list by a permutation of it, gives the job at index
  \<open>k\<close> of the new list the position \<open>k + 1\<close>, gives every job a position strictly
  greater than the position of each of its dependencies, and hands the new list to the
  backend, whose outcome is the outcome of \<open>run\<close>.
\<close>

theorem run_linearizes_acyclic:
  assumes dist: "distinct (jobs st)"
    and alloc: "\<forall>j\<in>set (jobs st). j < length (job_heap st)"
    and closed: "deps_closed st"
    and acyc: "acyclic (dependency_rel st)"
  shows "let st1 = snd (run e st dry_run verbose del) in
           mset (jobs st1) = mset (jobs st)
         \<and> (\<forall>k<length (jobs st1). job_id (job_heap st1 ! (jobs st1 ! k)) = Some (Suc k))
         \<and> (\<forall>j\<in>set (jobs st1). \<forall>d\<in>set (dependencies_of (job_heap st1) j).
               \<exists>pj pd. job_id (job_heap st1 ! j) = Some pj
                     \<and> job_id (job_heap st1 ! d) = Some pd \<and> pd < pj)
         \<and> backend_runs st1 = backend_runs st @ [(jobs st1, dry_run, verbose, del)]
         \<and> fst (run e st dry_run verbose del) = backend_result e (jobs st1) dry_run"
proof -
  let ?h = "job_heap st"
  obtain ord where
    f: "fold (schedule_job ?h) (jobs st) ({}, []) = (set ord, ord)"
    and dord: "distinct ord"
    and sub: "set (jobs st) \<subseteq> set ord"
    and reach: "\<forall>x\<in>set ord. \<exists>p\<in>set (jobs st). (p, x) \<in> (all_deps ?h)\<^sup>*"
    and deps: "\<forall>x\<in>set ord. \<forall>d\<in>set (dependencies_of ?h x).
        before ord d x \<or> (d \<in> set ord \<and> (d, x) \<in> (all_deps ?h)\<^sup>*)"
    by (rule linearize_facts)
  have seteq: "set ord = set (jobs st)" by (rule closed_same_jobs[OF closed sub reach])
  have card: "card (set ord) = length (jobs st)"
    using seteq dist by (simp add: distinct_card)
  have perm: "mset ord = mset (jobs st)"
    using seteq dord dist by (simp add: set_eq_iff_mset_eq_distinct)
  have bef: "before ord d x" if "x \<in> set ord" "d \<in> set (dependencies_of ?h x)" for x d
    using acyclic_before[OF closed acyc _ that(2)] that seteq deps by blast
  let ?idx = "job_index_of ord"
  have pre: "\<forall>j\<in>set ord. ?idx j \<noteq> None \<and>
      (\<forall>d\<in>set (dependencies_of ?h j). ?idx d \<noteq> None \<and> the (?idx d) < the (?idx j))"
  proof (intro ballI conjI)
    fix j assume "j \<in> set ord"
    from job_index_of_in_set[OF dord this] show "?idx j \<noteq> None" by auto
  next
    fix j d assume "j \<in> set ord" "d \<in> set (dependencies_of ?h j)"
    then have "before ord d j" by (rule bef)
    from job_index_of_before[OF dord this]
    show "?idx d \<noteq> None" and "the (?idx d) < the (?idx j)" by auto
  qed
  from assign_job_ids_ok[OF pre] obtain h1 where
    a: "assign_job_ids ?idx ord ?h = (None, h1)"
    and len: "length h1 = length ?h"
    and h1: "\<forall>k<length ?h. h1 ! k = (if k \<in> set ord then (?h ! k)\<lparr>job_id := ?idx k\<rparr> else ?h ! k)"
    by blast
  define st1 where "st1 = snd (run e st dry_run verbose del)"
  have st1: "jobs st1 = ord" "job_heap st1 = h1"
      "backend_runs st1 = backend_runs st @ [(ord, dry_run, verbose, del)]"
    and res: "fst (run e st dry_run verbose del) = backend_result e ord dry_run"
    unfolding st1_def using run_delegates[OF f card a] by simp_all
  have inheap: "j < length ?h" if "j \<in> set ord" for j using that seteq alloc by auto
  have id: "job_id (h1 ! j) = ?idx j" if "j \<in> set ord" for j
    using h1 inheap[OF that] that by simp
  have depeq: "dependencies_of h1 j = dependencies_of ?h j" if "j \<in> set ord" for j
    using h1 inheap[OF that] that len by (simp add: dependencies_of_def)
  have p2: "\<forall>k<length ord. job_id (h1 ! (ord ! k)) = Some (Suc k)"
    using id job_index_of_nth[OF dord] by simp
  have p3: "\<forall>j\<in>set ord. \<forall>d\<in>set (dependencies_of h1 j).
               \<exists>pj pd. job_id (h1 ! j) = Some pj \<and> job_id (h1 ! d) = Some pd \<and> pd < pj"
  proof (intro ballI)
    fix j d assume j: "j \<in> set ord" and "d \<in> set (dependencies_of h1 j)"
    then have d: "d \<in> set (dependencies_of ?h j)" using depeq by simp
    from bef[OF j d] have b: "before ord d j" .
    then have "d \<in> set ord" by (simp add: before_in_set)
    with job_index_of_before[OF dord b] id j
    show "\<exists>pj pd. job_id (h1 ! j) = Some pj \<and> job_id (h1 ! d) = Some pd \<and> pd < pj" by auto
  qed
  have "mset (jobs st1) = mset (jobs st)" using perm st1(1) by simp
  moreover have "\<forall>k<length (jobs st1). job_id (job_heap st1 ! (jobs st1 ! k)) = Some (Suc k)"
    using p2 st1(1,2) by simp
  moreover have "\<forall>j\<in>set (jobs st1). \<forall>d\<in>set (dependencies_of (job_heap st1) j).
               \<exists>pj pd. job_id (job_heap st1 ! j) = Some pj
                     \<and> job_id (job_heap st1 ! d) = Some pd \<and> pd < pj"
    using p3 unfolding st1(1,2) .
  moreover have "backend_runs st1 = backend_runs st @ [(jobs st1, dry_run, verbose, del)]"
    using st1(1,3) by simp
  moreover have "fst (run e st dry_run verbose del) = backend_result e (jobs st1) dry_run"
    using res st1(1) by simp
  ultimately show ?thesis
    unfolding Let_def st1_def by blast
qed

theorem run_linearizes_acyclic_witness:
  "jobs (snd (run plain_env dag_state True False True)) = [2, 0, 1]
   \<and> mset (jobs (snd (run plain_env dag_state True False True))) = mset [0, 1, 2]
   \<and> job_id (job_heap (snd (run plain_env dag_state True False True)) ! 2) = Some 1
   \<and> job_id (job_heap (snd (run plain_env dag_state True False True)) ! 0) = Some 2
   \<and> job_id (job_heap (snd (run plain_env dag_state True False True)) ! 1) = Some 3
   \<and> backend_runs (snd (run plain_env dag_state True False True)) = [([2, 0, 1], True, False, True)]
   \<and> fst (run plain_env dag_state True False True) = Inr None"
proof -
  have d: "distinct (jobs dag_state)"
    and a: "\<forall>j\<in>set (jobs dag_state). j < length (job_heap dag_state)"
    by (simp_all add: dag_state_def empty_state_def)
  have c: "deps_closed dag_state"
    by (simp add: deps_closed_def dag_state_def empty_state_def dependencies_of_def
          job_with_deps_def Job_init_def)
  have "(if b = 2 then 0 else if b = 0 then 1 else (2::nat))
          < (if a = 2 then 0 else if a = 0 then 1 else 2)"
    if "(a, b) \<in> dependency_rel dag_state" for a b
    using that
    by (auto simp: dependency_rel_def dag_state_def empty_state_def dependencies_of_def
          job_with_deps_def Job_init_def nth_Cons split: nat.splits if_splits)
  then have acyc: "acyclic (dependency_rel dag_state)"
    by (rule acyclicI_order)
  have r: "run plain_env dag_state True False True
     = (Inr None,
        dag_state\<lparr> job_heap := [(job_with_deps [2])\<lparr>job_id := Some 2\<rparr>,
                                (job_with_deps [0])\<lparr>job_id := Some 3\<rparr>,
                                (job_with_deps [])\<lparr>job_id := Some 1\<rparr>],
                   jobs := [2, 0, 1],
                   backend_runs := [([2, 0, 1], True, False, True)] \<rparr>)"
    by (simp add: run_def dag_state_def empty_state_def job_with_deps_def Job_init_def
          dependencies_of_def insert_commute job_index_of_def plain_env_def cycle_detected_def)
  show ?thesis
    using run_linearizes_acyclic [OF d a c acyc, of plain_env True False True]
    unfolding r Let_def by (simp add: dag_state_def empty_state_def)
qed

text \<open>
  C2, as amended. For every batch with a dependency cycle among its jobs, \<open>run\<close>
  returns, with an error, without calling the backend and with the job list as it was.
  The error is the batch error with the fixed message \<open>cycle detected in dependency
  graph\<close>, which does not tell the jobs of the cycle, when the job list holds each job
  once and the dependencies all lie in the batch; otherwise it is that error or the
  failure of the assertion on the number of jobs seen.
\<close>

theorem run_detects_cycle:
  assumes cyc: "\<not> acyclic (dependency_rel st)"
  shows "(fst (run e st dry_run verbose del) = Inl AssertionError
          \<or> fst (run e st dry_run verbose del) = Inl cycle_detected)
       \<and> (distinct (jobs st) \<and> deps_closed st \<longrightarrow>
            fst (run e st dry_run verbose del) = Inl cycle_detected)
       \<and> backend_runs (snd (run e st dry_run verbose del)) = backend_runs st
       \<and> jobs (snd (run e st dry_run verbose del)) = jobs st"
proof -
  let ?h = "job_heap st"
  obtain ord where
    f: "fold (schedule_job ?h) (jobs st) ({}, []) = (set ord, ord)"
    and dord: "distinct ord"
    and sub: "set (jobs st) \<subseteq> set ord"
    and reach: "\<forall>x\<in>set ord. \<exists>p\<in>set (jobs st). (p, x) \<in> (all_deps ?h)\<^sup>*"
    and deps: "\<forall>x\<in>set ord. \<forall>d\<in>set (dependencies_of ?h x).
        before ord d x \<or> (d \<in> set ord \<and> (d, x) \<in> (all_deps ?h)\<^sup>*)"
    by (rule linearize_facts)
  let ?idx = "job_index_of ord"
  have def: "\<forall>j\<in>set ord. ?idx j \<noteq> None \<and> (\<forall>d\<in>set (dependencies_of ?h j). ?idx d \<noteq> None)"
  proof (intro ballI conjI)
    fix j assume "j \<in> set ord"
    from job_index_of_in_set[OF dord this] show "?idx j \<noteq> None" by auto
  next
    fix j d assume "j \<in> set ord" "d \<in> set (dependencies_of ?h j)"
    with deps have "before ord d j \<or> d \<in> set ord" by blast
    then have "d \<in> set ord" using before_in_set[of ord d j] by blast
    from job_index_of_in_set[OF dord this] show "?idx d \<noteq> None" by auto
  qed
  from cycle_has_inversion[OF cyc sub, of "\<lambda>x. the (?idx x)"]
  have inv: "\<exists>j\<in>set ord. \<exists>d\<in>set (dependencies_of ?h j). the (?idx d) \<ge> the (?idx j)" .
  have fail: "fst (assign_job_ids ?idx ord ?h) = Some cycle_detected"
    by (rule assign_job_ids_cycle[OF def inv])
  have closedcase: "card (set ord) = length (jobs st)" if "distinct (jobs st)" "deps_closed st"
    using closed_same_jobs[OF that(2) sub reach] that(1) by (simp add: distinct_card)
  show ?thesis
  proof (cases "card (set ord) = length (jobs st)")
    case True
    obtain h1 where "assign_job_ids ?idx ord ?h = (Some cycle_detected, h1)"
      using fail by (cases "assign_job_ids ?idx ord ?h") auto
    from run_raises[OF f True this, of e dry_run verbose del]
    show ?thesis by simp
  next
    case False
    from run_assertion[OF f False, of e dry_run verbose del] closedcase False
    show ?thesis by auto
  qed
qed

theorem run_detects_cycle_witness:
  "fst (run plain_env cycle_state False False True)
     = Inl (BatchException ''cycle detected in dependency graph'')
   \<and> backend_runs (snd (run plain_env cycle_state False False True)) = []
   \<and> jobs (snd (run plain_env cycle_state False False True)) = [0, 1]"
proof -
  have e01: "(0, 1) \<in> dependency_rel cycle_state" and e10: "(1, 0) \<in> dependency_rel cycle_state"
    by (simp_all add: dependency_rel_def cycle_state_def empty_state_def dependencies_of_def
          job_with_deps_def Job_init_def)
  then have "(0, 0) \<in> (dependency_rel cycle_state)\<^sup>+" by (rule trancl_into_trancl2[OF _ r_into_trancl])
  then have cyc: "\<not> acyclic (dependency_rel cycle_state)" by (auto simp: acyclic_def)
  have dc: "distinct (jobs cycle_state) \<and> deps_closed cycle_state"
    by (simp add: deps_closed_def cycle_state_def empty_state_def dependencies_of_def
          job_with_deps_def Job_init_def)
  show ?thesis
    using run_detects_cycle [OF cyc, of plain_env False False True] dc
    by (simp add: cycle_detected_def cycle_state_def empty_state_def)
qed

text \<open>
  The claim as stated fails on a batch whose two jobs depend on each other and one of
  which also depends on a job outside the batch: \<open>run\<close> fails on the assertion, not with
  the cycle error.
\<close>

theorem run_foreign_cycle_counterexample:
  "(0, 1) \<in> dependency_rel foreign_cycle_state
   \<and> (1, 0) \<in> dependency_rel foreign_cycle_state
   \<and> run plain_env foreign_cycle_state False False True = (Inl AssertionError, foreign_cycle_state)"
  by (simp add: run_def dependency_rel_def foreign_cycle_state_def empty_state_def
        job_with_deps_def Job_init_def dependencies_of_def insert_commute)

section \<open>Properties of the storage facade\<close>

text \<open>
  C8, as amended. For every non-empty path on which the directory check of the client,
  made on the path with a final separator, returns an answer: when the file-size lookup
  succeeds, \<open>stat\<close> returns the path, the size found and the type, directory or file
  as the directory check says; when the file-size lookup reports not-found, \<open>stat\<close>
  returns the path as a directory of size zero if the directory check says yes and
  raises not-found if it says no; and \<open>stat\<close> raises not-found only in that last
  case. When the directory check raises, and the file-size lookup succeeds or reports
  not-found, \<open>stat\<close> raises the exception of the directory check.
\<close>

theorem stat_directory_fallback:
  assumes "p \<noteq> []"
  shows "let dir_path = (if last p \<noteq> CHR ''/'' then p @ ''/'' else p) in
     (isdir a dir_path = Inr d \<and> statfile_size a p = Inr n \<longrightarrow>
        RouterFS_stat a size_first p
          = Inr \<lparr> path = p, size_bytes = n, file_typ = (if d then DIRECTORY else FILE),
                  owner = None, modification_time = None \<rparr>)
   \<and> (isdir a dir_path = Inr True \<and> statfile_size a p = Inl (FileNotFoundError x) \<longrightarrow>
        RouterFS_stat a size_first p
          = Inr \<lparr> path = p, size_bytes = 0, file_typ = DIRECTORY,
                  owner = None, modification_time = None \<rparr>)
   \<and> (isdir a dir_path = Inr False \<and> statfile_size a p = Inl (FileNotFoundError x) \<longrightarrow>
        RouterFS_stat a size_first p = Inl (FileNotFoundError p))
   \<and> (isdir a dir_path = Inr d \<and> RouterFS_stat a size_first p = Inl (FileNotFoundError y) \<longrightarrow>
        (\<exists>z. statfile_size a p = Inl (FileNotFoundError z)) \<and> \<not> d)
   \<and> (isdir a dir_path = Inl err
        \<and> (statfile_size a p = Inr n \<or> statfile_size a p = Inl (FileNotFoundError x)) \<longrightarrow>
        RouterFS_stat a size_first p = Inl err)"
proof -
  let ?dir = "if last p \<noteq> CHR ''/'' then p @ ''/'' else p"
  have ad: "async_is_dir a p = isdir a ?dir"
    using assms by (simp add: async_is_dir_def)
  have c1: "RouterFS_stat a size_first p
          = Inr \<lparr> path = p, size_bytes = n, file_typ = (if d then DIRECTORY else FILE),
                  owner = None, modification_time = None \<rparr>"
    if "isdir a ?dir = Inr d" "statfile_size a p = Inr n"
    using that ad
    by (simp add: RouterFS_stat_def gather_def size_bytes_or_none_def stat_result_of_def)
  have c2: "RouterFS_stat a size_first p
          = Inr \<lparr> path = p, size_bytes = 0, file_typ = DIRECTORY,
                  owner = None, modification_time = None \<rparr>"
    if "isdir a ?dir = Inr True" "statfile_size a p = Inl (FileNotFoundError x)"
    using that ad
    by (simp add: RouterFS_stat_def gather_def size_bytes_or_none_def stat_result_of_def)
  have c3: "RouterFS_stat a size_first p = Inl (FileNotFoundError p)"
    if "isdir a ?dir = Inr False" "statfile_size a p = Inl (FileNotFoundError x)"
    using that ad
    by (simp add: RouterFS_stat_def gather_def size_bytes_or_none_def)
  have c4: "(\<exists>z. statfile_size a p = Inl (FileNotFoundError z)) \<and> \<not> d"
    if "isdir a ?dir = Inr d" "RouterFS_stat a size_first p = Inl (FileNotFoundError y)"
    using that ad
    by (auto simp: RouterFS_stat_def gather_def size_bytes_or_none_def
             split: sum.splits error.splits option.splits if_splits)
  have c5: "RouterFS_stat a size_first p = Inl err"
    if "isdir a ?dir = Inl err"
      "statfile_size a p = Inr n \<or> statfile_size a p = Inl (FileNotFoundError x)"
    using that ad
    by (auto simp: RouterFS_stat_def gather_def size_bytes_or_none_def)
  show ?thesis
    unfolding Let_def using c1 c2 c3 c4 c5 by blast
qed

theorem stat_directory_fallback_witness:
  "RouterFS_stat dir_only_afs True ''d''
     = Inr \<lparr> path = ''d'', size_bytes = 0, file_typ = DIRECTORY,
             owner = None, modification_time = None \<rparr>
   \<and> RouterFS_stat dir_only_afs True ''f''
     = Inr \<lparr> path = ''f'', size_bytes = 7, file_typ = FILE,
             owner = None, modification_time = None \<rparr>
   \<and> RouterFS_stat dir_only_afs True ''x'' = Inl (FileNotFoundError ''x'')"
proof -
  have ne: "''d'' \<noteq> []" "''f'' \<noteq> []" "''x'' \<noteq> []" by simp_all
  have d: "isdir dir_only_afs ''d/'' = Inr True"
    "statfile_size dir_only_afs ''d'' = Inl (FileNotFoundError ''d'')"
    and f: "isdir dir_only_afs ''f/'' = Inr False" "statfile_size dir_only_afs ''f'' = Inr 7"
    and x: "isdir dir_only_afs ''x/'' = Inr False"
    "statfile_size dir_only_afs ''x'' = Inl (FileNotFoundError ''x'')"
    by (simp_all add: dir_only_afs_def)
  show ?thesis
    using stat_directory_fallback [OF ne(1), where a = dir_only_afs and d = True and n = 0
        and size_first = True and x = "''d''"]
      stat_directory_fallback [OF ne(2), where a = dir_only_afs and d = False and n = 7
        and size_first = True and x = "''f''"]
      stat_directory_fallback [OF ne(3), where a = dir_only_afs and d = False and n = 0
        and size_first = True and x = "''x''"]
      d f x
    by (simp add: Let_def)
qed

text \<open>
  The claim as stated fails where the directory check does not answer: on a client that
  finds the size of \<open>f\<close> and refuses the directory check, \<open>stat\<close> raises the refusal
  although the file-size lookup succeeded; and on the empty path \<open>stat\<close> raises an index
  error.
\<close>

theorem stat_lookup_succeeds_counterexample:
  "statfile_size listing_denied_afs ''f'' = Inr 7
   \<and> RouterFS_stat listing_denied_afs True ''f'' = Inl (OtherError ''permission denied'')
   \<and> RouterFS_stat listing_denied_afs False ''f'' = Inl (OtherError ''permission denied'')
   \<and> statfile_size listing_denied_afs [] = Inr 7
   \<and> RouterFS_stat listing_denied_afs True [] = Inl IndexError
   \<and> RouterFS_stat listing_denied_afs False [] = Inl IndexError"
  by (simp add: RouterFS_stat_def gather_def size_bytes_or_none_def async_is_dir_def
        listing_denied_afs_def)



end
